theory Spec2Isabelle
  imports Main "HOL-Library.AList"
begin

section \<open>Common types\<close>

text \<open>
  Go's \<^verbatim>\<open>string\<close> and \<^verbatim>\<open>[]byte\<close> are both sequences of bytes; a \<^typ>\<open>char\<close> of HOL is
  one byte, so both are modelled as \<^typ>\<open>string\<close>.
\<close>

type_synonym bytes = string

section \<open>Pack codec (package pack)\<close>

text \<open>
  Only \<^verbatim>\<open>pack_test.go\<close> of the package is available: it fixes the type \<^verbatim>\<open>Entry\<close>
  (fields \<^verbatim>\<open>path\<close>, \<^verbatim>\<open>hash\<close>, \<^verbatim>\<open>pos\<close>, \<^verbatim>\<open>size\<close>), the constructor \<^verbatim>\<open>NewPackFile\<close> and
  the signatures of \<^verbatim>\<open>Write\<close> and \<^verbatim>\<open>Parse\<close>; \<^verbatim>\<open>filter.go\<close> fixes the fields \<^verbatim>\<open>Version\<close> and
  \<^verbatim>\<open>Entries\<close> of \<^verbatim>\<open>PackFile\<close> and the constant \<^verbatim>\<open>PackFileVersion\<close>.
  The field \<^verbatim>\<open>size\<close> is named \<open>esize\<close> here, \<open>size\<close> being a constant of HOL.
  The fields being constants from here on, a parameter that the code names \<^verbatim>\<open>hash\<close> is
  named \<open>h\<close>.
\<close>

record Entry =
  path :: string
  hash :: string
  pos :: nat
  esize :: nat

record PackFile =
  Version :: nat
  Entries :: "Entry list"

text \<open>
  The byte layout is not fixed by the specification beyond the order of the fields.
  What it leaves open is a parameter of the codec: the value of \<^verbatim>\<open>PackFileVersion\<close>, the
  number of bytes of every integer field, and the length of a hash (a hash is a string of
  fixed length, 32 characters for the default algorithm).
\<close>

record pack_format =
  PackFileVersion :: nat
  int_width :: nat
  hash_len :: nat

datatype pack_error = FormatError

text \<open>
  Modelled from the spec: \<^verbatim>\<open>NewPackFile\<close>, which is not in the sources; the test builds
  the pack file to write with it, and the version it gives is the one the format knows.
\<close>

definition NewPackFile :: "pack_format \<Rightarrow> Entry list \<Rightarrow> PackFile" where
  "NewPackFile fmt entries = \<lparr>Version = PackFileVersion fmt, Entries = entries\<rparr>"

text \<open>
  Modelled from the spec: the integer fields of the pack file, whose writer and reader are
  not in the sources. An integer takes \<open>w\<close> bytes, least significant byte first; a value
  that does not fit is truncated to its low \<open>w\<close> bytes, as a conversion to a fixed-width
  integer does.
\<close>

fun enc_nat :: "nat \<Rightarrow> nat \<Rightarrow> bytes" where
  "enc_nat 0 n = []"
| "enc_nat (Suc w) n = char_of (n mod 256) # enc_nat w (n div 256)"

fun dec_nat :: "bytes \<Rightarrow> nat" where
  "dec_nat [] = 0"
| "dec_nat (c # cs) = of_char c + 256 * dec_nat cs"

text \<open>
  Modelled from the spec: reading \<open>k\<close> bytes from the stream; a stream that ends before
  is truncated, which is a \<open>FormatError\<close>.
\<close>

definition read_bytes :: "nat \<Rightarrow> bytes \<Rightarrow> pack_error + (bytes \<times> bytes)" where
  "read_bytes k bs = (if length bs < k then Inl FormatError else Inr (take k bs, drop k bs))"

definition read_nat :: "nat \<Rightarrow> bytes \<Rightarrow> pack_error + (nat \<times> bytes)" where
  "read_nat w bs =
     (case read_bytes w bs of
        Inl e \<Rightarrow> Inl e
      | Inr (ds, rest) \<Rightarrow> Inr (dec_nat ds, rest))"

text \<open>
  Modelled from the spec: \<open>Encode\<close> (in the test, \<^verbatim>\<open>Write\<close>) ``writes a format-version
  marker followed by the entry count, then each entry's path (length-prefixed), hash, pos,
  size in a fixed field order''.
\<close>

definition write_entry :: "pack_format \<Rightarrow> Entry \<Rightarrow> bytes" where
  "write_entry fmt e =
     enc_nat (int_width fmt) (length (path e)) @ path e
     @ hash e
     @ enc_nat (int_width fmt) (pos e)
     @ enc_nat (int_width fmt) (esize e)"

definition Write :: "pack_format \<Rightarrow> PackFile \<Rightarrow> bytes" where
  "Write fmt pak =
     enc_nat (int_width fmt) (Version pak)
     @ enc_nat (int_width fmt) (length (Entries pak))
     @ concat (map (write_entry fmt) (Entries pak))"

text \<open>
  Modelled from the spec: \<open>Decode\<close> (in the test, \<^verbatim>\<open>Parse\<close>) ``fails with
  \<open>FormatError\<close> if the version marker is unrecognized or the stream is truncated
  mid-entry''. Bytes after the last entry are not looked at.
\<close>

definition parse_entry :: "pack_format \<Rightarrow> bytes \<Rightarrow> pack_error + (Entry \<times> bytes)" where
  "parse_entry fmt bs =
     (case read_nat (int_width fmt) bs of
        Inl e \<Rightarrow> Inl e
      | Inr (n, bs1) \<Rightarrow>
     (case read_bytes n bs1 of
        Inl e \<Rightarrow> Inl e
      | Inr (p, bs2) \<Rightarrow>
     (case read_bytes (hash_len fmt) bs2 of
        Inl e \<Rightarrow> Inl e
      | Inr (h, bs3) \<Rightarrow>
     (case read_nat (int_width fmt) bs3 of
        Inl e \<Rightarrow> Inl e
      | Inr (ps, bs4) \<Rightarrow>
     (case read_nat (int_width fmt) bs4 of
        Inl e \<Rightarrow> Inl e
      | Inr (sz, bs5) \<Rightarrow>
          Inr (\<lparr>path = p, hash = h, pos = ps, esize = sz\<rparr>, bs5))))))"

fun parse_entries :: "pack_format \<Rightarrow> nat \<Rightarrow> bytes \<Rightarrow> pack_error + Entry list" where
  "parse_entries fmt 0 bs = Inr []"
| "parse_entries fmt (Suc n) bs =
     (case parse_entry fmt bs of
        Inl e \<Rightarrow> Inl e
      | Inr (x, rest) \<Rightarrow>
          (case parse_entries fmt n rest of
             Inl e \<Rightarrow> Inl e
           | Inr xs \<Rightarrow> Inr (x # xs)))"

definition Parse :: "pack_format \<Rightarrow> bytes \<Rightarrow> pack_error + PackFile" where
  "Parse fmt bs =
     (case read_nat (int_width fmt) bs of
        Inl e \<Rightarrow> Inl e
      | Inr (v, bs1) \<Rightarrow>
          if v \<noteq> PackFileVersion fmt then Inl FormatError
          else
            (case read_nat (int_width fmt) bs1 of
               Inl e \<Rightarrow> Inl e
             | Inr (n, bs2) \<Rightarrow>
                 (case parse_entries fmt n bs2 of
                    Inl e \<Rightarrow> Inl e
                  | Inr xs \<Rightarrow> Inr \<lparr>Version = v, Entries = xs\<rparr>)))"

text \<open>
  A pack entry fits the format when its hash has the length of a hash and its integers
  (the length of the path included) fit the integer fields.
\<close>

definition entry_fits :: "pack_format \<Rightarrow> Entry \<Rightarrow> bool" where
  "entry_fits fmt e \<longleftrightarrow>
     length (path e) < 256 ^ int_width fmt \<and>
     length (hash e) = hash_len fmt \<and>
     pos e < 256 ^ int_width fmt \<and>
     esize e < 256 ^ int_width fmt"

definition entries_fit :: "pack_format \<Rightarrow> Entry list \<Rightarrow> bool" where
  "entries_fit fmt es \<longleftrightarrow>
     PackFileVersion fmt < 256 ^ int_width fmt \<and>
     length es < 256 ^ int_width fmt \<and>
     list_all (entry_fits fmt) es"

text \<open>The entries of \<^verbatim>\<open>TestPack\<close>, and a format with 8-byte integers and 32-character hashes.\<close>

definition test_hash :: string where
  "test_hash = ''0123456789abcdef0123456789abcdef''"

definition test_entries :: "Entry list" where
  "test_entries =
     [\<lparr>path = ''hoge'', hash = test_hash, pos = 0, esize = 1\<rparr>,
      \<lparr>path = ''fugafuga'', hash = test_hash, pos = 0, esize = 100\<rparr>,
      \<lparr>path = ''piyo'', hash = test_hash, pos = 0, esize = 0\<rparr>]"

definition test_format :: pack_format where
  "test_format = \<lparr>PackFileVersion = 1, int_width = 8, hash_len = 32\<rparr>"

section \<open>The downloader (package cfs)\<close>

subsection \<open>Errors, panics and results\<close>

text \<open>
  A Go \<^verbatim>\<open>error\<close> is a value. The errors the package builds itself have their own
  constructors; an error handed back by a library call (transport, file system, URL parser,
  the content transform, the manifest parser, a subprocess) is \<open>Lib\<close>.
\<close>

datatype error =
    InvalidHash string  \<comment> \<open>\<^verbatim>\<open>"cannot fetch data, %s is not a hash"\<close>\<close>
  | NotHash string  \<comment> \<open>\<^verbatim>\<open>"%s is not hash"\<close>\<close>
  | BadStatus int string  \<comment> \<open>\<^verbatim>\<open>"bad response status code %d from %v"\<close>\<close>
  | NoOutput  \<comment> \<open>\<^verbatim>\<open>"no output from filter"\<close>\<close>
  | Lib string

text \<open>
  A panic ends the process: a slice expression out of range, \<^verbatim>\<open>panic(err)\<close>, and
  \<^verbatim>\<open>check(err)\<close> of the command line tool. The function \<^verbatim>\<open>check\<close> is not in the sources;
  from its use (the code after it takes the checked value as valid) it is taken to stop
  the process when the error is not nil.
\<close>

datatype panic = SliceBounds | PanicErr error | CheckFailed error

datatype 'a result = Ok 'a | Err error | Panic panic

definition result_of :: "error + 'a \<Rightarrow> 'a result" where
  "result_of r = (case r of Inl e \<Rightarrow> Err e | Inr x \<Rightarrow> Ok x)"

subsection \<open>The world outside the process\<close>

text \<open>
  Every call that leaves the process is written to a trace, in order. The file system maps
  a path to the content of the file there; \<open>Inl e\<close> is a file that exists and whose
  reading fails with \<open>e\<close>.
\<close>

datatype event =
    Stat string
  | ReadFile string
  | WriteFile string bytes
  | Create string
  | MkdirAll string
  | Get string
  | Head string

record world =
  trace :: "event list"
  fs :: "string \<rightharpoonup> error + bytes"

definition emit :: "event \<Rightarrow> world \<Rightarrow> world" where
  "emit ev w = w\<lparr>trace := trace w @ [ev]\<rparr>"

definition now :: "world \<Rightarrow> nat" where
  "now w = length (trace w)"

text \<open>The URLs of the GET requests of a trace, in order.\<close>

fun gets :: "event list \<Rightarrow> string list" where
  "gets [] = []"
| "gets (Get u # evs) = u # gets evs"
| "gets (ev # evs) = gets evs"

record response =
  StatusCode :: int
  Body :: "error + bytes"

record 'attr Content =
  Path :: string
  Hash :: string
  Size :: int
  Attr :: 'attr

text \<open>
  \<^verbatim>\<open>Contents\<close> is a Go map from a string to a \<^verbatim>\<open>Content\<close>. The code only ranges over it
  (in an order Go leaves open) and builds it by insertion, so it is a list of pairs with
  distinct keys; the order of the list is the order of the iteration.
\<close>

record 'attr Bucket =
  HashType :: string
  Tag :: string
  Contents :: "(string \<times> 'attr Content) list"

text \<open>
  Diagnostic output (the messages under \<^verbatim>\<open>Verbose\<close> and the retry message) is left out.
  What the package calls and is not part of it: the URL parser, the HTTP transport, the
  file system calls that can fail, the path functions, and the functions of the package
  whose source is not available (\<^verbatim>\<open>decode\<close>, \<^verbatim>\<open>Bucket.Parse\<close>,
  \<^verbatim>\<open>DefaultContentAttribute\<close>, \<^verbatim>\<open>GlobalDataCacheDir\<close>). The answer of a call to the
  outside may depend on when it is made: it takes the number of events before it.
  A URL is the string \<^verbatim>\<open>url.String()\<close> gives.
\<close>

record 'attr env =
  BaseUrl_Parse :: "string \<Rightarrow> error + string"
  http_Get :: "nat \<Rightarrow> string \<Rightarrow> error + response"
  http_Head :: "nat \<Rightarrow> string \<Rightarrow> error + response"
  WriteFile_error :: "nat \<Rightarrow> string \<Rightarrow> error option"
  MkdirAll_error :: "nat \<Rightarrow> string \<Rightarrow> error option"
  Create_error :: "nat \<Rightarrow> string \<Rightarrow> error option"
  decode :: "bytes \<Rightarrow> 'attr \<Rightarrow> error + bytes"
  Bucket_Parse :: "'attr Bucket \<Rightarrow> bytes \<Rightarrow> error + 'attr Bucket"
  DefaultContentAttribute :: 'attr
  GlobalDataCacheDir :: string
  Join :: "string \<Rightarrow> string \<Rightarrow> string"
  Dir :: "string \<Rightarrow> string"
  FromSlash :: "string \<Rightarrow> string"

text \<open>
  Modelled from the spec: \<^verbatim>\<open>isHash\<close>, which is not in the sources. A hash is ``a lowercase
  hexadecimal string, fixed length determined by the manifest's declared hash algorithm'',
  32 characters for the algorithm \<^verbatim>\<open>md5\<close> that \<^verbatim>\<open>LoadBucket\<close> declares.
\<close>

definition isHash :: "string \<Rightarrow> bool" where
  "isHash s \<longleftrightarrow> length s = 32 \<and> list_all (\<lambda>c. c \<in> set ''0123456789abcdef'') s"

subsection \<open>Requests\<close>

definition getRequest :: "'attr env \<Rightarrow> string \<Rightarrow> world \<Rightarrow> (error + response) \<times> world" where
  "getRequest env url w = (http_Get env (now w) url, emit (Get url) w)"

definition headRequest :: "'attr env \<Rightarrow> string \<Rightarrow> world \<Rightarrow> (error + response) \<times> world" where
  "headRequest env url w = (http_Head env (now w) url, emit (Head url) w)"

definition fetch :: "'attr env \<Rightarrow> string \<Rightarrow> world \<Rightarrow> bytes result \<times> world" where
  "fetch env url w =
     (case getRequest env url w of
        (Inl err, w') \<Rightarrow> (Err err, w')
      | (Inr res, w') \<Rightarrow>
          if StatusCode res \<ge> 400 then (Err (BadStatus (StatusCode res) url), w')
          else
            (case Body res of
               Inl err \<Rightarrow> (Err err, w')
             | Inr contents \<Rightarrow> (Ok contents, w')))"

text \<open>
  \<^verbatim>\<open>hash[0:2]\<close> panics when the string has fewer than two bytes; \<^verbatim>\<open>hash[2:]\<close> is then
  in range.
\<close>

definition dataRef :: "string \<Rightarrow> string" where
  "dataRef h = ''data/'' @ take 2 h @ ''/'' @ drop 2 h"

definition dataUrl :: "'attr env \<Rightarrow> string \<Rightarrow> string result" where
  "dataUrl env h =
     (if length h < 2 then Panic SliceBounds
      else result_of (BaseUrl_Parse env (dataRef h)))"

definition FetchTag :: "'attr env \<Rightarrow> string \<Rightarrow> world \<Rightarrow> bytes result \<times> world" where
  "FetchTag env tag w =
     (case BaseUrl_Parse env (''tag/'' @ tag) of
        Inl err \<Rightarrow> (Err err, w)
      | Inr fetchUrl \<Rightarrow> fetch env fetchUrl w)"

subsection \<open>File system calls\<close>

definition atomic_WriteFile ::
  "'attr env \<Rightarrow> string \<Rightarrow> bytes \<Rightarrow> world \<Rightarrow> error option \<times> world" where
  "atomic_WriteFile env name data w =
     (case WriteFile_error env (now w) name of
        Some err \<Rightarrow> (Some err, emit (WriteFile name data) w)
      | None \<Rightarrow> (None, (emit (WriteFile name data) w)\<lparr>fs := (fs w)(name \<mapsto> Inr data)\<rparr>))"

definition os_MkdirAll :: "'attr env \<Rightarrow> string \<Rightarrow> world \<Rightarrow> error option \<times> world" where
  "os_MkdirAll env name w = (MkdirAll_error env (now w) name, emit (MkdirAll name) w)"

text \<open>\<^verbatim>\<open>os.Create\<close> truncates the file when it exists.\<close>

definition os_Create :: "'attr env \<Rightarrow> string \<Rightarrow> world \<Rightarrow> error option \<times> world" where
  "os_Create env name w =
     (case Create_error env (now w) name of
        Some err \<Rightarrow> (Some err, emit (Create name) w)
      | None \<Rightarrow> (None, (emit (Create name) w)\<lparr>fs := (fs w)(name \<mapsto> Inr [])\<rparr>))"

subsection \<open>Fetch\<close>

definition cachePath :: "'attr env \<Rightarrow> string \<Rightarrow> string" where
  "cachePath env h = Join env (GlobalDataCacheDir env) h"

definition Fetch :: "'attr env \<Rightarrow> string \<Rightarrow> 'attr \<Rightarrow> world \<Rightarrow> bytes result \<times> world" where
  "Fetch env h attr w =
     (if \<not> isHash h then (Err (InvalidHash h), w)
      else
        let cache = cachePath env h;
            w1 = emit (Stat cache) w
        in
          (case fs w cache of
             Some file \<Rightarrow>
               (case file of
                  Inl err \<Rightarrow> (Err err, emit (ReadFile cache) w1)
                | Inr data \<Rightarrow> (result_of (decode env data attr), emit (ReadFile cache) w1))
           | None \<Rightarrow>
               (case dataUrl env h of
                  Panic p \<Rightarrow> (Panic p, w1)
                | Err err \<Rightarrow> (Err err, w1)
                | Ok fetchUrl \<Rightarrow>
                    (case fetch env fetchUrl w1 of
                       (Panic p, w2) \<Rightarrow> (Panic p, w2)
                     | (Err err, w2) \<Rightarrow> (Err err, w2)
                     | (Ok data, w2) \<Rightarrow>
                         (case atomic_WriteFile env cache data w2 of
                            (Some err, w3) \<Rightarrow> (Err err, w3)
                          | (None, w3) \<Rightarrow> (result_of (decode env data attr), w3))))))"

subsection \<open>LoadBucket\<close>

definition LoadBucket :: "'attr env \<Rightarrow> string \<Rightarrow> world \<Rightarrow> 'attr Bucket result \<times> world" where
  "LoadBucket env location w =
     (let b = \<lparr>HashType = ''md5'', Tag = [], Contents = []\<rparr> in
      case
        (if \<not> isHash location then
           (case FetchTag env location w of
              (Panic p, w1) \<Rightarrow> (Panic p, w1)
            | (Err err, w1) \<Rightarrow> (Err err, w1)
            | (Ok locationBytes, w1) \<Rightarrow>
                if \<not> isHash locationBytes then (Err (NotHash locationBytes), w1)
                else (Ok locationBytes, w1))
         else (Ok location, w))
      of
        (Panic p, w1) \<Rightarrow> (Panic p, w1)
      | (Err err, w1) \<Rightarrow> (Err err, w1)
      | (Ok location', w1) \<Rightarrow>
          (case Fetch env location' (DefaultContentAttribute env) w1 of
             (Panic p, w2) \<Rightarrow> (Panic p, w2)
           | (Err err, w2) \<Rightarrow> (Err err, w2)
           | (Ok body, w2) \<Rightarrow> (result_of (Bucket_Parse env b body), w2)))"

subsection \<open>ExistsAll\<close>

text \<open>
  The 32 workers take the entries from one channel. A worker's body is run here for one
  entry after the other, in the order the entries leave the channel; a panic in a worker
  ends the process, so no later entry is looked at.
\<close>

fun ExistsAll_workers ::
  "'attr env \<Rightarrow> 'attr Content list \<Rightarrow> (string \<rightharpoonup> bool) \<Rightarrow> world
     \<Rightarrow> (string \<rightharpoonup> bool) result \<times> world" where
  "ExistsAll_workers env [] result w = (Ok result, w)"
| "ExistsAll_workers env (c # cs) result w =
     (case dataUrl env (Hash c) of
        Panic p \<Rightarrow> (Panic p, w)
      | Err err \<Rightarrow> (Panic (PanicErr err), w)
      | Ok url \<Rightarrow>
          (case headRequest env url w of
             (Inl err, w') \<Rightarrow> ExistsAll_workers env cs (result(Path c \<mapsto> False)) w'
           | (Inr res, w') \<Rightarrow>
               ExistsAll_workers env cs (result(Path c \<mapsto> (StatusCode res = 200))) w'))"

definition ExistsAll ::
  "'attr env \<Rightarrow> 'attr Bucket \<Rightarrow> world \<Rightarrow> (string \<rightharpoonup> bool) result \<times> world" where
  "ExistsAll env b w = ExistsAll_workers env (map snd (Contents b)) Map.empty w"

text \<open>What a worker records for the answer of a HEAD request.\<close>

definition head_exists :: "error + response \<Rightarrow> bool" where
  "head_exists r = (case r of Inl err \<Rightarrow> False | Inr res \<Rightarrow> StatusCode res = 200)"

subsection \<open>Sync\<close>

definition Sync_entry :: "'attr env \<Rightarrow> string \<Rightarrow> 'attr Content \<Rightarrow> world \<Rightarrow> unit result \<times> world" where
  "Sync_entry env dir c w =
     (case (if Size c > 0 then Fetch env (Hash c) (Attr c) w else (Ok [], w)) of
        (Panic p, w1) \<Rightarrow> (Panic p, w1)
      | (Err err, w1) \<Rightarrow> (Err err, w1)
      | (Ok data, w1) \<Rightarrow>
          let target = Join env dir (FromSlash env (Path c)) in
          (case os_MkdirAll env (Dir env target) w1 of
             (Some err, w2) \<Rightarrow> (Err err, w2)
           | (None, w2) \<Rightarrow>
               (case atomic_WriteFile env target data w2 of
                  (Some err, w3) \<Rightarrow> (Err err, w3)
                | (None, w3) \<Rightarrow> (Ok (), w3))))"

fun Sync_entries ::
  "'attr env \<Rightarrow> string \<Rightarrow> 'attr Content list \<Rightarrow> world \<Rightarrow> unit result \<times> world" where
  "Sync_entries env dir [] w = (Ok (), w)"
| "Sync_entries env dir (c # cs) w =
     (case Sync_entry env dir c w of
        (Ok u, w') \<Rightarrow> Sync_entries env dir cs w'
      | (Err err, w') \<Rightarrow> (Err err, w')
      | (Panic p, w') \<Rightarrow> (Panic p, w'))"

definition Sync :: "'attr env \<Rightarrow> 'attr Bucket \<Rightarrow> string \<Rightarrow> world \<Rightarrow> unit result \<times> world" where
  "Sync env b dir w = Sync_entries env dir (map snd (Contents b)) w"

subsection \<open>FetchAll\<close>

definition RETRY_LIMIT :: nat where
  "RETRY_LIMIT = 3"

function retry_loop ::
  "'attr env \<Rightarrow> 'attr Content \<Rightarrow> nat \<Rightarrow> world \<Rightarrow> unit result \<times> world" where
  "retry_loop env c retryCount w =
     (case Fetch env (Hash c) (Attr c) w of
        (Ok data, w') \<Rightarrow> (Ok (), w')
      | (Panic p, w') \<Rightarrow> (Panic p, w')
      | (Err err, w') \<Rightarrow>
          if retryCount < RETRY_LIMIT then retry_loop env c (retryCount + 1) w'
          else (Err err, w'))"
  by pat_completeness auto
termination
  by (relation "measure (\<lambda>(env, c, retryCount, w). RETRY_LIMIT - retryCount)") auto

text \<open>
  The body of one task of the group, run with no step of another task in between.
  \<open>cancelled\<close> is what \<^verbatim>\<open>ctx.Done()\<close> shows when the task looks at it. The result of
  \<^verbatim>\<open>os.Create\<close> is dropped, as in the code.
\<close>

definition FetchAll_task ::
  "'attr env \<Rightarrow> 'attr Content \<Rightarrow> bool \<Rightarrow> world \<Rightarrow> unit result \<times> world" where
  "FetchAll_task env c cancelled w =
     (if cancelled then (Ok (), w)
      else if Size c = 0 then (Ok (), snd (os_Create env (cachePath env (Hash c)) w))
      else retry_loop env c 0 w)"

text \<open>
  \<^verbatim>\<open>FetchAll\<close> starts one goroutine for every entry at once; the goroutines run
  concurrently. A goroutine is followed here through the points where it can wait or where
  it calls the outside, so that the steps of different goroutines can come in any order:
  before the semaphore (\<open>Waiting\<close>), holding one of its 8 slots before the
  \<^verbatim>\<open>select\<close> (\<open>Acquired\<close>), in the \<^verbatim>\<open>default\<close> branch (\<open>Passed\<close>), about to call
  \<^verbatim>\<open>Fetch\<close> with the given \<^verbatim>\<open>retryCount\<close> (\<open>AtFetch\<close>), inside \<^verbatim>\<open>Fetch\<close> about to read the
  cache file (\<open>AtRead\<close>), about to send the GET (\<open>AtGet\<close>, with the URL) or about to write
  the cache file (\<open>AtWrite\<close>, with the bytes received), returned from the function of the
  task with its slot given back (\<open>Returned\<close>), and ended, once the group has taken its
  error (\<open>Reported\<close>).
\<close>

datatype pc =
    Waiting
  | Acquired
  | Passed
  | AtFetch nat
  | AtRead nat
  | AtGet nat string
  | AtWrite nat bytes
  | Returned "unit result"
  | Reported "unit result"

text \<open>
  What the retry loop does with the value \<open>r\<close> a call of \<^verbatim>\<open>Fetch\<close> returns. A panic ends
  the process (see \<open>step\<close>).
\<close>

definition after_Fetch :: "nat \<Rightarrow> bytes result \<Rightarrow> pc" where
  "after_Fetch retryCount r =
     (case r of
        Ok data \<Rightarrow> Returned (Ok ())
      | Panic p \<Rightarrow> Returned (Panic p)
      | Err err \<Rightarrow>
          if retryCount < RETRY_LIMIT then AtFetch (retryCount + 1)
          else Returned (Err err))"

text \<open>
  One step of the goroutine of the entry \<open>c\<close>. \<open>cancelled\<close> is what \<^verbatim>\<open>ctx.Done()\<close> shows
  and \<open>free\<close> says that the semaphore has a free slot; a goroutine that waits for a slot
  when there is none stays where it is. The step gives the next point, the value a call of
  \<^verbatim>\<open>Fetch\<close> has returned if one has ended in this step, and the world. The steps inside
  \<^verbatim>\<open>Fetch\<close> are the statements of \<open>Fetch\<close> above, cut before each call to the outside;
  \<^verbatim>\<open>ReadFile\<close> reads the file as it is at that moment.
\<close>

fun task_step ::
  "'attr env \<Rightarrow> bool \<Rightarrow> bool \<Rightarrow> 'attr Content \<Rightarrow> pc \<Rightarrow> world
     \<Rightarrow> pc \<times> bytes result option \<times> world" where
  "task_step env cancelled free c Waiting w =
     (if free then Acquired else Waiting, None, w)"
| "task_step env cancelled free c Acquired w =
     (if cancelled then Returned (Ok ()) else Passed, None, w)"
| "task_step env cancelled free c Passed w =
     (if Size c = 0 then (Returned (Ok ()), None, snd (os_Create env (cachePath env (Hash c)) w))
      else (AtFetch 0, None, w))"
| "task_step env cancelled free c (AtFetch retryCount) w =
     (if \<not> isHash (Hash c) then
        (after_Fetch retryCount (Err (InvalidHash (Hash c))), Some (Err (InvalidHash (Hash c))), w)
      else
        let cache = cachePath env (Hash c);
            w1 = emit (Stat cache) w
        in
          (case fs w cache of
             Some file \<Rightarrow> (AtRead retryCount, None, w1)
           | None \<Rightarrow>
               (case dataUrl env (Hash c) of
                  Panic p \<Rightarrow> (after_Fetch retryCount (Panic p), Some (Panic p), w1)
                | Err err \<Rightarrow> (after_Fetch retryCount (Err err), Some (Err err), w1)
                | Ok fetchUrl \<Rightarrow> (AtGet retryCount fetchUrl, None, w1))))"
| "task_step env cancelled free c (AtRead retryCount) w =
     (let cache = cachePath env (Hash c);
          w1 = emit (ReadFile cache) w;
          r = (case fs w cache of
                 None \<Rightarrow> Err (Lib ''no such file'')
               | Some (Inl err) \<Rightarrow> Err err
               | Some (Inr data) \<Rightarrow> result_of (decode env data (Attr c)))
      in (after_Fetch retryCount r, Some r, w1))"
| "task_step env cancelled free c (AtGet retryCount fetchUrl) w =
     (case fetch env fetchUrl w of
        (Panic p, w1) \<Rightarrow> (after_Fetch retryCount (Panic p), Some (Panic p), w1)
      | (Err err, w1) \<Rightarrow> (after_Fetch retryCount (Err err), Some (Err err), w1)
      | (Ok data, w1) \<Rightarrow> (AtWrite retryCount data, None, w1))"
| "task_step env cancelled free c (AtWrite retryCount data) w =
     (case atomic_WriteFile env (cachePath env (Hash c)) data w of
        (Some err, w1) \<Rightarrow> (after_Fetch retryCount (Err err), Some (Err err), w1)
      | (None, w1) \<Rightarrow>
          (after_Fetch retryCount (result_of (decode env data (Attr c))),
           Some (result_of (decode env data (Attr c))), w1))"
| "task_step env cancelled free c (Returned r) w = (Reported r, None, w)"
| "task_step env cancelled free c (Reported r) w = (Reported r, None, w)"

text \<open>
  A goroutine of the group: its entry, the point it is at, and what its calls of \<^verbatim>\<open>Fetch\<close>
  have returned so far, oldest first. The last is not a variable of the code: it is
  kept to state how often and with what outcome the goroutine has called \<^verbatim>\<open>Fetch\<close>.
\<close>

record 'attr task =
  entry :: "'attr Content"
  pc :: pc
  results :: "bytes result list"

text \<open>
  The group: its goroutines, the error it has taken (\<^verbatim>\<open>errgroup\<close> keeps the first and
  cancels the context when it takes it, so the context is cancelled exactly when
  \<open>first_err\<close> is set), and the panic that has ended the process, if any.
\<close>

record 'attr group =
  tasks :: "'attr task list"
  first_err :: "error option"
  crashed :: "panic option"

definition holds_slot :: "pc \<Rightarrow> bool" where
  "holds_slot p =
     (case p of Waiting \<Rightarrow> False | Returned r \<Rightarrow> False | Reported r \<Rightarrow> False | _ \<Rightarrow> True)"

definition slots_in_use :: "'attr task list \<Rightarrow> nat" where
  "slots_in_use ts = length (filter (\<lambda>t. holds_slot (pc t)) ts)"

text \<open>
  The scheduler lets the goroutine \<open>i\<close> make its next step. Nothing moves once the process
  has ended in a panic. The group takes the error of a goroutine in the step that leads
  from \<open>Returned\<close> to \<open>Reported\<close>.
\<close>

definition step :: "'attr env \<Rightarrow> nat \<Rightarrow> 'attr group \<times> world \<Rightarrow> 'attr group \<times> world" where
  "step env i s =
     (case s of (g, w) \<Rightarrow>
        if crashed g \<noteq> None \<or> \<not> i < length (tasks g) then (g, w)
        else
          (case task_step env (first_err g \<noteq> None) (slots_in_use (tasks g) < 8)
                  (entry (tasks g ! i)) (pc (tasks g ! i)) w of
             (p, r, w') \<Rightarrow>
               (g\<lparr>tasks := (tasks g)
                     [i := (tasks g ! i)
                        \<lparr>pc := p,
                         results := (case r of
                                       None \<Rightarrow> results (tasks g ! i)
                                     | Some x \<Rightarrow> results (tasks g ! i) @ [x])\<rparr>],
                  first_err := (case (pc (tasks g ! i), first_err g) of
                                  (Returned (Err err), None) \<Rightarrow> Some err
                                | _ \<Rightarrow> first_err g),
                  crashed := (case p of Returned (Panic q) \<Rightarrow> Some q | _ \<Rightarrow> None)\<rparr>,
                w')))"

text \<open>A schedule is the list of the goroutines that step, in order.\<close>

definition run :: "'attr env \<Rightarrow> nat list \<Rightarrow> 'attr group \<times> world \<Rightarrow> 'attr group \<times> world" where
  "run env sched s = fold (step env) sched s"

definition start :: "'attr Bucket \<Rightarrow> 'attr group" where
  "start b =
     \<lparr>tasks = map (\<lambda>(key, c). \<lparr>entry = c, pc = Waiting, results = []\<rparr>) (Contents b),
      first_err = None,
      crashed = None\<rparr>"

definition ended :: "pc \<Rightarrow> bool" where
  "ended p = (case p of Reported r \<Rightarrow> True | _ \<Rightarrow> False)"

text \<open>
  \<^verbatim>\<open>eg.Wait()\<close> returns when every goroutine has ended, with the error the group has
  taken. \<^verbatim>\<open>FetchAll\<close> under a schedule: \<open>None\<close> when the schedule stops before that.
\<close>

definition FetchAll ::
  "'attr env \<Rightarrow> 'attr Bucket \<Rightarrow> nat list \<Rightarrow> world \<Rightarrow> (unit result \<times> world) option" where
  "FetchAll env b sched w =
     (case run env sched (start b, w) of
        (g, w') \<Rightarrow>
          (case crashed g of
             Some p \<Rightarrow> Some (Panic p, w')
           | None \<Rightarrow>
               if list_all (\<lambda>t. ended (pc t)) (tasks g)
               then Some (case first_err g of None \<Rightarrow> Ok () | Some err \<Rightarrow> Err err, w')
               else None))"

text \<open>
  The calls of \<^verbatim>\<open>Fetch\<close> a goroutine has begun: those that have returned and the one it is
  in. A value a call returns is a failure when it is an error.
\<close>

definition in_Fetch :: "pc \<Rightarrow> bool" where
  "in_Fetch p =
     (case p of AtRead n \<Rightarrow> True | AtGet n u \<Rightarrow> True | AtWrite n d \<Rightarrow> True | _ \<Rightarrow> False)"

definition calls :: "'attr task \<Rightarrow> nat" where
  "calls t = length (results t) + (if in_Fetch (pc t) then 1 else 0)"

definition failed :: "'a result \<Rightarrow> bool" where
  "failed r = (case r of Err err \<Rightarrow> True | _ \<Rightarrow> False)"

text \<open>An upper bound of the steps a goroutine still makes once it has a slot.\<close>

definition steps_left :: "pc \<Rightarrow> nat" where
  "steps_left p =
     (case p of
        Waiting \<Rightarrow> 16
      | Acquired \<Rightarrow> 15
      | Passed \<Rightarrow> 14
      | AtFetch n \<Rightarrow> 3 * (3 - n) + 4
      | AtRead n \<Rightarrow> 3 * (3 - n) + 3
      | AtGet n u \<Rightarrow> 3 * (3 - n) + 3
      | AtWrite n d \<Rightarrow> 3 * (3 - n) + 2
      | Returned r \<Rightarrow> 1
      | Reported r \<Rightarrow> 0)"

section \<open>The filter of the command line tool (cmd/cfs/filter.go)\<close>

text \<open>
  The subprocess is outside: given the program, its arguments and what is written to its
  standard input, it cannot be started, or writing to it fails, or it ends with the error
  of \<^verbatim>\<open>cmd.Wait\<close> (if any) and its standard output.
\<close>

datatype proc = CannotStart error | CopyFailed error | Finished "error option" string

type_synonym exec = "string \<Rightarrow> string list \<Rightarrow> string \<Rightarrow> proc"

text \<open>\<^verbatim>\<open>strings.Split(s, sep)\<close> for a separator of one byte, and \<^verbatim>\<open>strings.Join(xs, sep)\<close>.\<close>

fun strings_Split :: "char \<Rightarrow> string \<Rightarrow> string list" where
  "strings_Split sep [] = [[]]"
| "strings_Split sep (c # cs) =
     (if c = sep then [] # strings_Split sep cs
      else (case strings_Split sep cs of
              [] \<Rightarrow> [[c]]
            | x # xs \<Rightarrow> (c # x) # xs))"

fun strings_Join :: "string list \<Rightarrow> string \<Rightarrow> string" where
  "strings_Join [] sep = []"
| "strings_Join [x] sep = x"
| "strings_Join (x # y # ys) sep = x @ sep @ strings_Join (y # ys) sep"

definition LF :: char where
  "LF = CHR 0x0A"

definition CR :: char where
  "CR = CHR 0x0D"

text \<open>\<^verbatim>\<open>strings.TrimRight(out, "\n")\<close> drops every line feed at the end.\<close>

definition TrimRight_LF :: "string \<Rightarrow> string" where
  "TrimRight_LF out = rev (dropWhile (\<lambda>c. c = LF) (rev out))"

text \<open>
  \<^verbatim>\<open>regexp.MustCompile("\r\n|\n\r|\n|\r").Split(s, -1)\<close>: the matches are found from left
  to right, the first alternative that matches at a position wins, and the pieces between
  the matches are returned; the empty string gives one empty piece.
\<close>

fun lf_Split :: "string \<Rightarrow> string list" where
  "lf_Split [] = [[]]"
| "lf_Split [c] = (if c = CR \<or> c = LF then [[], []] else [[c]])"
| "lf_Split (c # d # cs) =
     (if (c = CR \<and> d = LF) \<or> (c = LF \<and> d = CR) then [] # lf_Split cs
      else if c = LF \<or> c = CR then [] # lf_Split (d # cs)
      else (case lf_Split (d # cs) of
              [] \<Rightarrow> [[c]]
            | x # xs \<Rightarrow> (c # x) # xs))"

definition runCommand :: "exec \<Rightarrow> string \<Rightarrow> string \<Rightarrow> string result" where
  "runCommand exec cmdStr input =
     (case strings_Split CHR '' '' cmdStr of
        [] \<Rightarrow> Panic SliceBounds
      | name # args \<Rightarrow>
          (case exec name args input of
             CannotStart err \<Rightarrow> Panic (CheckFailed err)
           | CopyFailed err \<Rightarrow> Panic (CheckFailed err)
           | Finished None out \<Rightarrow> Ok out
           | Finished (Some err) out \<Rightarrow> if out = [] then Err NoOutput else Err err))"

definition runFilter :: "exec \<Rightarrow> string \<Rightarrow> string list \<Rightarrow> string list result" where
  "runFilter exec cmdStr files =
     (case runCommand exec cmdStr (strings_Join files [LF]) of
        Panic p \<Rightarrow> Panic p
      | Err err \<Rightarrow> Err err
      | Ok out \<Rightarrow> Ok (lf_Split (TrimRight_LF out)))"

definition filterBucket :: "exec \<Rightarrow> string \<Rightarrow> 'attr Bucket \<Rightarrow> 'attr Bucket result" where
  "filterBucket exec cmd b =
     (if cmd = [] then Ok b
      else
        (case runFilter exec cmd (map (\<lambda>(k, e). Path e) (Contents b)) of
           Panic p \<Rightarrow> Panic p
         | Err err \<Rightarrow> Panic (CheckFailed err)
         | Ok files \<Rightarrow>
             Ok \<lparr>HashType = ''md5'',
                 Tag = Tag b,
                 Contents =
                   fold (\<lambda>(k, e) newEntries.
                           if Path e \<in> set files then AList.update (Path e) e newEntries
                           else newEntries)
                     (Contents b) []\<rparr>))"

text \<open>\<^verbatim>\<open>filter.go\<close> reads the path of a pack entry as \<^verbatim>\<open>e.Path\<close>; it is the field \<open>path\<close>.\<close>

definition filterPackFile :: "pack_format \<Rightarrow> exec \<Rightarrow> string \<Rightarrow> PackFile \<Rightarrow> PackFile result" where
  "filterPackFile fmt exec cmd pak =
     (if cmd = [] then Ok pak
      else
        (case runFilter exec cmd (map path (Entries pak)) of
           Panic p \<Rightarrow> Panic p
         | Err err \<Rightarrow> Panic (CheckFailed err)
         | Ok files \<Rightarrow>
             Ok \<lparr>Version = PackFileVersion fmt,
                 Entries = filter (\<lambda>e. path e \<in> set files) (Entries pak)\<rparr>))"

section \<open>Concrete inputs\<close>

text \<open>
  An outside world for the examples. The URL parser refuses a reference with a percent
  sign (the hashes used below make it an invalid escape). During the first \<open>n\<close> ticks of
  the trace every GET fails in the transport; later the blob of \<open>test_hash\<close> is served
  with the body \<^verbatim>\<open>payload\<close>, the tag \<^verbatim>\<open>release\<close> with the body \<^verbatim>\<open>v1.2\<close> (not a hash),
  the tag \<^verbatim>\<open>stable\<close> with \<open>test_hash\<close>, and anything else is answered 404. A HEAD
  answers 200 for the blob of \<open>test_hash\<close> and 404 otherwise. No file system call fails.
  The attribute is a flag that asks for the bytes reversed.
\<close>

definition other_hash :: string where
  "other_hash = ''ffffffffffffffffffffffffffffffff''"

definition url_of :: "string \<Rightarrow> string" where
  "url_of r = ''http://cfs.example/'' @ r"

definition example_Get :: "nat \<Rightarrow> nat \<Rightarrow> string \<Rightarrow> error + response" where
  "example_Get n t url =
     (if t < n then Inl (Lib ''connection refused'')
      else if url = url_of (dataRef test_hash) then Inr \<lparr>StatusCode = 200, Body = Inr ''payload''\<rparr>
      else if url = url_of ''tag/release'' then Inr \<lparr>StatusCode = 200, Body = Inr ''v1.2''\<rparr>
      else if url = url_of ''tag/stable'' then Inr \<lparr>StatusCode = 200, Body = Inr test_hash\<rparr>
      else Inr \<lparr>StatusCode = 404, Body = Inr ''not found''\<rparr>)"

definition example_Head :: "nat \<Rightarrow> string \<Rightarrow> error + response" where
  "example_Head t url =
     (if url = url_of (dataRef test_hash) then Inr \<lparr>StatusCode = 200, Body = Inr []\<rparr>
      else if url = url_of (dataRef other_hash) then Inl (Lib ''connection reset'')
      else Inr \<lparr>StatusCode = 404, Body = Inr []\<rparr>)"

definition example_env :: "nat \<Rightarrow> bool env" where
  "example_env n =
     \<lparr>BaseUrl_Parse =
        (\<lambda>r. if CHR ''%'' \<in> set r then Inl (Lib ''invalid URL escape'') else Inr (url_of r)),
      http_Get = example_Get n,
      http_Head = example_Head,
      WriteFile_error = (\<lambda>t name. None),
      MkdirAll_error = (\<lambda>t name. None),
      Create_error = (\<lambda>t name. None),
      decode = (\<lambda>data attr. Inr (if attr then rev data else data)),
      Bucket_Parse = (\<lambda>b body. Inr (b\<lparr>Tag := body\<rparr>)),
      DefaultContentAttribute = False,
      GlobalDataCacheDir = ''/cache'',
      Join = (\<lambda>dir name. dir @ ''/'' @ name),
      Dir = (\<lambda>name. name @ ''/..''),
      FromSlash = (\<lambda>name. name)\<rparr>"

definition world0 :: world where
  "world0 = \<lparr>trace = [], fs = Map.empty\<rparr>"

text \<open>The world after \<open>test_hash\<close> has been fetched once into the empty cache.\<close>

definition world1 :: world where
  "world1 = snd (Fetch (example_env 0) test_hash True world0)"

definition content_a :: "bool Content" where
  "content_a = \<lparr>Path = ''a.txt'', Hash = test_hash, Size = 5, Attr = True\<rparr>"

definition content_empty :: "bool Content" where
  "content_empty = \<lparr>Path = ''empty.txt'', Hash = test_hash, Size = 0, Attr = False\<rparr>"

definition content_b :: "bool Content" where
  "content_b = \<lparr>Path = ''b.bin'', Hash = other_hash, Size = 7, Attr = False\<rparr>"

definition content_short :: "bool Content" where
  "content_short = \<lparr>Path = ''short.txt'', Hash = ''a'', Size = 5, Attr = False\<rparr>"

definition content_escape :: "bool Content" where
  "content_escape = \<lparr>Path = ''escape.txt'', Hash = ''%zz'', Size = 5, Attr = False\<rparr>"

definition bucket_of :: "bool Content list \<Rightarrow> bool Bucket" where
  "bucket_of cs = \<lparr>HashType = ''md5'', Tag = ''release'', Contents = map (\<lambda>c. (Path c, c)) cs\<rparr>"

text \<open>A filter command that gives back the lines it is given.\<close>

definition cat_exec :: exec where
  "cat_exec name args input = Finished None input"

definition old_pack :: PackFile where
  "old_pack = \<lparr>Version = 2, Entries = test_entries\<rparr>"

section \<open>Round trip of the pack codec\<close>

lemma length_enc_nat: "length (enc_nat w n) = w"
  by (induction w arbitrary: n) simp_all

lemma dec_enc_nat: "n < 256 ^ w \<Longrightarrow> dec_nat (enc_nat w n) = n"
proof (induction w arbitrary: n)
  case 0
  then show ?case by simp
next
  case (Suc w)
  from Suc.prems have "n div 256 < 256 ^ w"
    by (simp add: less_mult_imp_div_less mult.commute)
  with Suc.IH have "dec_nat (enc_nat w (n div 256)) = n div 256" .
  then show ?case by simp
qed

lemma read_bytes_append: "length xs = k \<Longrightarrow> read_bytes k (xs @ rest) = Inr (xs, rest)"
  by (simp add: read_bytes_def)

lemma read_nat_enc:
  "n < 256 ^ w \<Longrightarrow> read_nat w (enc_nat w n @ rest) = Inr (n, rest)"
  by (simp add: read_nat_def read_bytes_append length_enc_nat dec_enc_nat)

lemma parse_write_entry:
  assumes "entry_fits fmt e"
  shows "parse_entry fmt (write_entry fmt e @ rest) = Inr (e, rest)"
proof -
  from assms have p: "length (path e) < 256 ^ int_width fmt"
    and h: "length (hash e) = hash_len fmt"
    and ps: "pos e < 256 ^ int_width fmt"
    and sz: "esize e < 256 ^ int_width fmt"
    by (simp_all add: entry_fits_def)
  show ?thesis
    unfolding parse_entry_def write_entry_def
    by (simp add: read_nat_enc [OF p] read_nat_enc [OF ps] read_nat_enc [OF sz]
        read_bytes_append h)
qed

lemma parse_write_entries:
  "list_all (entry_fits fmt) es \<Longrightarrow>
   parse_entries fmt (length es) (concat (map (write_entry fmt) es) @ rest) = Inr es"
  by (induction es) (simp_all add: parse_write_entry)

text \<open>
  C1. Decoding the bytes produced by encoding a sequence of pack entries gives back the
  same entries, field for field and in the same order, entries of size 0 and entries
  sharing one hash under different paths included. The entries are those the format can
  hold: every hash has the length of a hash, and every integer fits its field.
\<close>

theorem pack_round_trip:
  assumes "entries_fit fmt es"
  shows "Parse fmt (Write fmt (NewPackFile fmt es)) = Inr (NewPackFile fmt es)"
proof -
  from assms have v: "PackFileVersion fmt < 256 ^ int_width fmt"
    and n: "length es < 256 ^ int_width fmt"
    and fits: "list_all (entry_fits fmt) es"
    by (simp_all add: entries_fit_def)
  have "parse_entries fmt (length es) (concat (map (write_entry fmt) es) @ []) = Inr es"
    using fits by (rule parse_write_entries)
  then show ?thesis
    unfolding Parse_def Write_def NewPackFile_def
    by (simp add: read_nat_enc [OF v] read_nat_enc [OF n])
qed

theorem pack_round_trip_witness:
  "entries_fit test_format test_entries \<and>
   Parse test_format (Write test_format (NewPackFile test_format test_entries))
     = Inr (NewPackFile test_format test_entries) \<and>
   Entries (NewPackFile test_format test_entries) = test_entries"
proof -
  have fit: "entries_fit test_format test_entries"
    by (simp add: entries_fit_def entry_fits_def test_format_def test_entries_def test_hash_def)
  show ?thesis
    using fit pack_round_trip [OF fit] by (simp add: NewPackFile_def)
qed

section \<open>Fetch\<close>

lemma dataUrl_isHash: "isHash h \<Longrightarrow> dataUrl env h = result_of (BaseUrl_Parse env (dataRef h))"
  by (simp add: dataUrl_def isHash_def)

lemmas example_defs = example_env_def example_Get_def example_Head_def url_of_def
  test_hash_def other_hash_def world0_def dataRef_def cachePath_def

lemmas Fetch_defs = Fetch_def Let_def dataUrl_def result_of_def fetch_def getRequest_def
  atomic_WriteFile_def now_def emit_def

lemma gets_append: "gets (xs @ ys) = gets xs @ gets ys"
  by (induction xs rule: gets.induct) simp_all

text \<open>
  C6. For a string \<open>h\<close> that is not a hash, \<^verbatim>\<open>Fetch(h, attr)\<close> returns the error ``cannot
  fetch data, h is not a hash'' at once: the world is unchanged, so the trace has no new
  event (no stat or read of the cache, no request, no write) and no file has changed.
\<close>

theorem Fetch_invalid_hash:
  "\<not> isHash h \<Longrightarrow> Fetch env h attr w = (Err (InvalidHash h), w)"
  by (simp add: Fetch_def)

theorem Fetch_invalid_hash_witness:
  "\<not> isHash ''release'' \<and>
   Fetch (example_env 0) ''release'' False world0 = (Err (InvalidHash ''release''), world0)"
proof -
  have n: "\<not> isHash ''release''" by (simp add: isHash_def)
  show ?thesis using n Fetch_invalid_hash [OF n] by simp
qed

text \<open>
  C7. For a hash \<open>h\<close> with no cache entry, \<^verbatim>\<open>Fetch\<close> asks the cache, then requests the
  URL that the reference \<^verbatim>\<open>data/<h[0:2]>/<h[2:]>\<close> resolves to. A transport error and a
  status of 400 or more are returned as errors, after these two events and with the file
  system unchanged, and so is an error in reading the body. When the body \<open>data\<close> arrives
  and the write succeeds, the cache entry of \<open>h\<close> holds \<open>data\<close>, the raw bytes, and the
  result is the transform of \<open>data\<close> (its error, if it fails: the entry is written before
  the transform is applied). When the write fails its error is returned and the file
  system is unchanged.
\<close>

theorem Fetch_cold_cache:
  assumes "isHash h"
    and "fs w (cachePath env h) = None"
    and "BaseUrl_Parse env (dataRef h) = Inr u"
  shows
    "(\<forall>err. http_Get env (Suc (now w)) u = Inl err \<longrightarrow>
        Fetch env h attr w =
          (Err err, w\<lparr>trace := trace w @ [Stat (cachePath env h), Get u]\<rparr>)) \<and>
     (\<forall>res. http_Get env (Suc (now w)) u = Inr res \<and> StatusCode res \<ge> 400 \<longrightarrow>
        Fetch env h attr w =
          (Err (BadStatus (StatusCode res) u),
           w\<lparr>trace := trace w @ [Stat (cachePath env h), Get u]\<rparr>)) \<and>
     (\<forall>res err. http_Get env (Suc (now w)) u = Inr res \<and> StatusCode res < 400 \<and>
        Body res = Inl err \<longrightarrow>
        Fetch env h attr w =
          (Err err, w\<lparr>trace := trace w @ [Stat (cachePath env h), Get u]\<rparr>)) \<and>
     (\<forall>res data. http_Get env (Suc (now w)) u = Inr res \<and> StatusCode res < 400 \<and>
        Body res = Inr data \<and> WriteFile_error env (now w + 2) (cachePath env h) = None \<longrightarrow>
        Fetch env h attr w =
          (result_of (decode env data attr),
           w\<lparr>trace := trace w @ [Stat (cachePath env h), Get u,
                                 WriteFile (cachePath env h) data],
             fs := (fs w)(cachePath env h \<mapsto> Inr data)\<rparr>)) \<and>
     (\<forall>res data err. http_Get env (Suc (now w)) u = Inr res \<and> StatusCode res < 400 \<and>
        Body res = Inr data \<and> WriteFile_error env (now w + 2) (cachePath env h) = Some err \<longrightarrow>
        Fetch env h attr w =
          (Err err,
           w\<lparr>trace := trace w @ [Stat (cachePath env h), Get u,
                                 WriteFile (cachePath env h) data]\<rparr>))"
  using assms
  by (simp add: Fetch_def Let_def dataUrl_isHash result_of_def fetch_def getRequest_def
      atomic_WriteFile_def now_def emit_def)

theorem Fetch_cold_cache_witness:
  "isHash test_hash \<and>
   fs world0 (cachePath (example_env 0) test_hash) = None \<and>
   BaseUrl_Parse (example_env 0) (dataRef test_hash) = Inr (url_of (dataRef test_hash)) \<and>
   Fetch (example_env 0) test_hash True world0 =
     (Ok ''daolyap'',
      \<lparr>trace = [Stat (''/cache/'' @ test_hash), Get (url_of (dataRef test_hash)),
                WriteFile (''/cache/'' @ test_hash) ''payload''],
       fs = [''/cache/'' @ test_hash \<mapsto> Inr ''payload'']\<rparr>) \<and>
   Fetch (example_env 2) test_hash True world0 =
     (Err (Lib ''connection refused''),
      \<lparr>trace = [Stat (''/cache/'' @ test_hash), Get (url_of (dataRef test_hash))],
       fs = Map.empty\<rparr>) \<and>
   Fetch (example_env 0) other_hash True world0 =
     (Err (BadStatus 404 (url_of (dataRef other_hash))),
      \<lparr>trace = [Stat (''/cache/'' @ other_hash), Get (url_of (dataRef other_hash))],
       fs = Map.empty\<rparr>)"
proof -
  have h1: "isHash test_hash" and h2: "isHash other_hash"
    by (simp_all add: isHash_def test_hash_def other_hash_def)
  have c0: "fs world0 (cachePath (example_env n) h) = None" for n h
    by (simp add: world0_def)
  have u1: "BaseUrl_Parse (example_env n) (dataRef test_hash) = Inr (url_of (dataRef test_hash))"
    and u2: "BaseUrl_Parse (example_env n) (dataRef other_hash) = Inr (url_of (dataRef other_hash))"
    for n
    by (simp_all add: example_defs)
  show ?thesis
    using h1 c0 [of 0 test_hash] u1 [of 0]
      Fetch_cold_cache [OF h1 c0 u1, of 0 True]
      Fetch_cold_cache [OF h1 c0 u1, of 2 True]
      Fetch_cold_cache [OF h2 c0 u2, of 0 True]
    by (simp add: now_def result_of_def example_defs)
qed

text \<open>
  C3. For a hash \<open>h\<close> with no cache entry, when a first \<^verbatim>\<open>Fetch(h, attr)\<close> returns bytes
  \<open>b\<close>, it has made one GET, at the data URL of \<open>h\<close>, and has written the cache entry; a
  second \<^verbatim>\<open>Fetch(h, attr)\<close> then returns the same \<open>b\<close> after a stat and a read of the
  cache entry only, so that the two calls together make exactly one GET.
\<close>

theorem Fetch_twice:
  assumes "isHash h"
    and "fs w (cachePath env h) = None"
    and "Fetch env h attr w = (Ok b, w1)"
  shows "\<exists>u data.
           BaseUrl_Parse env (dataRef h) = Inr u \<and>
           trace w1 = trace w @ [Stat (cachePath env h), Get u, WriteFile (cachePath env h) data] \<and>
           fs w1 (cachePath env h) = Some (Inr data) \<and>
           Fetch env h attr w1 =
             (Ok b, w1\<lparr>trace := trace w1 @ [Stat (cachePath env h), ReadFile (cachePath env h)]\<rparr>) \<and>
           gets (trace (snd (Fetch env h attr w1))) = gets (trace w) @ [u]"
  using assms
  by (auto simp: Fetch_defs gets_append isHash_def
      split: sum.splits option.splits if_splits)

theorem Fetch_twice_witness:
  "isHash test_hash \<and>
   fs world0 (cachePath (example_env 0) test_hash) = None \<and>
   Fetch (example_env 0) test_hash True world0 = (Ok ''daolyap'', world1) \<and>
   fst (Fetch (example_env 0) test_hash True world1) = Ok ''daolyap'' \<and>
   gets (trace (snd (Fetch (example_env 0) test_hash True world1))) = [url_of (dataRef test_hash)]"
proof -
  have h: "isHash test_hash"
    by (simp add: isHash_def test_hash_def)
  have c: "fs world0 (cachePath (example_env 0) test_hash) = None"
    by (simp add: world0_def)
  have f: "Fetch (example_env 0) test_hash True world0 = (Ok ''daolyap'', world1)"
    unfolding world1_def by (simp add: Fetch_defs isHash_def example_defs)
  have u: "BaseUrl_Parse (example_env 0) (dataRef test_hash) = Inr (url_of (dataRef test_hash))"
    by (simp add: example_defs)
  have g: "gets (trace world0) = []"
    by (simp add: world0_def)
  from Fetch_twice [OF h c f] u g
  have "fst (Fetch (example_env 0) test_hash True world1) = Ok ''daolyap'' \<and>
        gets (trace (snd (Fetch (example_env 0) test_hash True world1)))
          = [url_of (dataRef test_hash)]"
    by auto
  with h c f show ?thesis by simp
qed

section \<open>Entries of size 0\<close>

lemma gets_no_request [simp]:
  "gets (evs @ [MkdirAll d]) = gets evs"
  "gets (evs @ [WriteFile f data]) = gets evs"
  "gets (evs @ [Create f]) = gets evs"
  "gets (evs @ [MkdirAll d, WriteFile f data]) = gets evs"
  by (simp_all add: gets_append)

text \<open>
  C4. For an entry of size 0, neither the step of \<^verbatim>\<open>Sync\<close> for it nor the task of
  \<^verbatim>\<open>FetchAll\<close> for it makes a GET. \<^verbatim>\<open>Sync\<close> creates the directory and writes a file of
  length zero at the target path of the entry (when neither call fails; it returns the
  error otherwise); the task of \<^verbatim>\<open>FetchAll\<close> creates an empty file at the cache path of
  the entry's hash (when \<^verbatim>\<open>os.Create\<close> does not fail; its error is dropped). The
  lemmas after the witness carry this to a whole run of \<^verbatim>\<open>Sync\<close> over entries of size 0.
\<close>

theorem zero_size_no_get:
  assumes "Size c = 0"
  shows
    "gets (trace (snd (Sync_entry env dir c w))) = gets (trace w) \<and>
     (MkdirAll_error env (now w) (Dir env (Join env dir (FromSlash env (Path c)))) = None \<and>
      WriteFile_error env (Suc (now w)) (Join env dir (FromSlash env (Path c))) = None \<longrightarrow>
        Sync_entry env dir c w =
          (Ok (),
           w\<lparr>trace := trace w @ [MkdirAll (Dir env (Join env dir (FromSlash env (Path c)))),
                                 WriteFile (Join env dir (FromSlash env (Path c))) []],
             fs := (fs w)(Join env dir (FromSlash env (Path c)) \<mapsto> Inr [])\<rparr>)) \<and>
     gets (trace (snd (FetchAll_task env c cancelled w))) = gets (trace w) \<and>
     (Create_error env (now w) (cachePath env (Hash c)) = None \<longrightarrow>
        FetchAll_task env c False w =
          (Ok (),
           w\<lparr>trace := trace w @ [Create (cachePath env (Hash c))],
             fs := (fs w)(cachePath env (Hash c) \<mapsto> Inr [])\<rparr>))"
proof -
  have sync_gets: "gets (trace (snd (Sync_entry env dir c w))) = gets (trace w)"
    using assms
    by (simp add: Sync_entry_def Let_def os_MkdirAll_def atomic_WriteFile_def emit_def
        split: option.splits)
  have sync_ok: "Sync_entry env dir c w =
          (Ok (),
           w\<lparr>trace := trace w @ [MkdirAll (Dir env (Join env dir (FromSlash env (Path c)))),
                                 WriteFile (Join env dir (FromSlash env (Path c))) []],
             fs := (fs w)(Join env dir (FromSlash env (Path c)) \<mapsto> Inr [])\<rparr>)"
    if "MkdirAll_error env (now w) (Dir env (Join env dir (FromSlash env (Path c)))) = None"
      and "WriteFile_error env (Suc (now w)) (Join env dir (FromSlash env (Path c))) = None"
    using assms that
    by (simp add: Sync_entry_def Let_def os_MkdirAll_def atomic_WriteFile_def emit_def now_def)
  have task_gets: "gets (trace (snd (FetchAll_task env c cancelled w))) = gets (trace w)"
    using assms
    by (simp add: FetchAll_task_def os_Create_def emit_def split: option.splits)
  have task_ok: "FetchAll_task env c False w =
          (Ok (),
           w\<lparr>trace := trace w @ [Create (cachePath env (Hash c))],
             fs := (fs w)(cachePath env (Hash c) \<mapsto> Inr [])\<rparr>)"
    if "Create_error env (now w) (cachePath env (Hash c)) = None"
    using assms that
    by (simp add: FetchAll_task_def os_Create_def emit_def)
  show ?thesis
    using sync_gets sync_ok task_gets task_ok by blast
qed

theorem zero_size_no_get_witness:
  "Size content_empty = 0 \<and>
   MkdirAll_error (example_env 0) (now world0) ''/out/empty.txt/..'' = None \<and>
   WriteFile_error (example_env 0) (Suc (now world0)) ''/out/empty.txt'' = None \<and>
   Create_error (example_env 0) (now world0) (''/cache/'' @ test_hash) = None \<and>
   Sync_entry (example_env 0) ''/out'' content_empty world0 =
     (Ok (), \<lparr>trace = [MkdirAll ''/out/empty.txt/..'', WriteFile ''/out/empty.txt'' []],
              fs = [''/out/empty.txt'' \<mapsto> Inr []]\<rparr>) \<and>
   FetchAll_task (example_env 0) content_empty False world0 =
     (Ok (), \<lparr>trace = [Create (''/cache/'' @ test_hash)],
              fs = [''/cache/'' @ test_hash \<mapsto> Inr []]\<rparr>) \<and>
   gets (trace (snd (FetchAll_task (example_env 0) content_empty False world0))) = []"
proof -
  have z: "Size content_empty = 0"
    by (simp add: content_empty_def)
  show ?thesis
    using z zero_size_no_get [OF z, of "example_env 0" "''/out''" world0 False]
    by (simp add: content_empty_def example_defs now_def)
qed

lemma Sync_empty_entries_no_get:
  "list_all (\<lambda>c. Size c = 0) cs \<Longrightarrow>
   gets (trace (snd (Sync_entries env dir cs w))) = gets (trace w)"
proof (induction cs arbitrary: w)
  case Nil
  then show ?case by simp
next
  case (Cons c cs)
  then have z: "Size c = 0" and rest: "list_all (\<lambda>c. Size c = 0) cs"
    by simp_all
  have g: "gets (trace (snd (Sync_entry env dir c w))) = gets (trace w)"
    using z
    by (simp add: Sync_entry_def Let_def os_MkdirAll_def atomic_WriteFile_def emit_def
        split: option.splits)
  show ?case
  proof (cases "Sync_entry env dir c w")
    case (Pair r w')
    with g Cons.IH [OF rest, of w'] show ?thesis
      by (cases r) simp_all
  qed
qed

lemma Sync_empty_bucket_no_get:
  "list_all (\<lambda>(key, c). Size c = 0) (Contents b) \<Longrightarrow>
   gets (trace (snd (Sync env b dir w))) = gets (trace w)"
  unfolding Sync_def
  by (rule Sync_empty_entries_no_get) (simp add: list_all_iff case_prod_unfold)

section \<open>LoadBucket: tag resolution\<close>

lemma Fetch_trace_extends:
  "\<exists>evs. trace (snd (Fetch env h attr w)) = trace w @ evs"
  by (auto simp: Fetch_defs split: option.splits sum.splits result.splits if_splits)

lemma Fetch_gets:
  "\<exists>us. gets (trace (snd (Fetch env h attr w))) = gets (trace w) @ us \<and>
        set us \<subseteq> {u. BaseUrl_Parse env (dataRef h) = Inr u}"
  by (auto simp: Fetch_defs gets_append split: option.splits sum.splits result.splits if_splits)

lemma LoadBucket_hash:
  assumes "isHash location"
  shows "LoadBucket env location w =
           (case Fetch env location (DefaultContentAttribute env) w of
              (Ok body, w') \<Rightarrow>
                (result_of (Bucket_Parse env \<lparr>HashType = ''md5'', Tag = [], Contents = []\<rparr> body), w')
            | (Err err, w') \<Rightarrow> (Err err, w')
            | (Panic p, w') \<Rightarrow> (Panic p, w'))"
  using assms by (simp add: LoadBucket_def)

text \<open>
  C5. \<^verbatim>\<open>LoadBucket\<close> resolves its location first. A location that is a hash is handed to
  \<^verbatim>\<open>Fetch\<close> as it is, in the world as it is: the run is that of \<^verbatim>\<open>Fetch\<close> followed by the
  parsing of the manifest, and every GET it makes is at the data URL of the location, so
  none is a tag lookup. For a location that is not a hash, whose reference
  \<^verbatim>\<open>tag/<location>\<close> the URL parser resolves to \<open>u\<close>, the first event is the GET at \<open>u\<close>;
  when it answers with a body that is not a hash, \<^verbatim>\<open>LoadBucket\<close> returns the error ``body
  is not hash'' after this one request, and when the body is a hash it goes on as
  \<^verbatim>\<open>LoadBucket\<close> of that hash does, which makes no tag lookup.
\<close>

theorem LoadBucket_resolution:
  "(isHash location \<longrightarrow>
      LoadBucket env location w =
        (case Fetch env location (DefaultContentAttribute env) w of
           (Ok body, w') \<Rightarrow>
             (result_of (Bucket_Parse env \<lparr>HashType = ''md5'', Tag = [], Contents = []\<rparr> body), w')
         | (Err err, w') \<Rightarrow> (Err err, w')
         | (Panic p, w') \<Rightarrow> (Panic p, w')) \<and>
      (\<exists>us. gets (trace (snd (LoadBucket env location w))) = gets (trace w) @ us \<and>
            set us \<subseteq> {u. BaseUrl_Parse env (dataRef location) = Inr u})) \<and>
   (\<not> isHash location \<and> BaseUrl_Parse env (''tag/'' @ location) = Inr u \<longrightarrow>
      (\<exists>evs. trace (snd (LoadBucket env location w)) = trace w @ Get u # evs) \<and>
      (\<forall>res body.
         http_Get env (now w) u = Inr res \<and> StatusCode res < 400 \<and> Body res = Inr body \<longrightarrow>
           (\<not> isHash body \<longrightarrow>
              LoadBucket env location w = (Err (NotHash body), w\<lparr>trace := trace w @ [Get u]\<rparr>)) \<and>
           (isHash body \<longrightarrow>
              LoadBucket env location w = LoadBucket env body (w\<lparr>trace := trace w @ [Get u]\<rparr>))))"
proof -
  have hash_gets: "\<exists>us. gets (trace (snd (LoadBucket env location w))) = gets (trace w) @ us \<and>
            set us \<subseteq> {u. BaseUrl_Parse env (dataRef location) = Inr u}"
    if h: "isHash location"
  proof -
    have "snd (LoadBucket env location w) =
            snd (Fetch env location (DefaultContentAttribute env) w)"
      unfolding LoadBucket_hash [OF h]
      by (cases "Fetch env location (DefaultContentAttribute env) w")
         (simp split: result.splits)
    then show ?thesis
      using Fetch_gets [of env location "DefaultContentAttribute env" w] by simp
  qed
  have tag_first: "\<exists>evs. trace (snd (LoadBucket env location w)) = trace w @ Get u # evs"
    if t: "\<not> isHash location" "BaseUrl_Parse env (''tag/'' @ location) = Inr u"
  proof -
    obtain r w1 where f: "FetchTag env location w = (r, w1)"
      by (cases "FetchTag env location w")
    have w1: "w1 = w\<lparr>trace := trace w @ [Get u]\<rparr>"
      using f t
      by (auto simp: FetchTag_def fetch_def getRequest_def emit_def
          split: sum.splits if_splits)
    show ?thesis
    proof (cases "\<exists>body. r = Ok body \<and> isHash body")
      case True
      then obtain body where r: "r = Ok body" and hb: "isHash body"
        by blast
      obtain evs where evs:
        "trace (snd (Fetch env body (DefaultContentAttribute env) w1)) = trace w1 @ evs"
        using Fetch_trace_extends [of env body "DefaultContentAttribute env" w1] by blast
      have "snd (LoadBucket env location w) =
              snd (Fetch env body (DefaultContentAttribute env) w1)"
        using t f r hb
        by (cases "Fetch env body (DefaultContentAttribute env) w1")
           (simp add: LoadBucket_def split: result.splits)
      then show ?thesis
        using evs w1 by simp
    next
      case False
      then have "snd (LoadBucket env location w) = w1"
        using t f by (cases r) (auto simp: LoadBucket_def)
      then show ?thesis
        using w1 by simp
    qed
  qed
  have tag_body: "(\<not> isHash body \<longrightarrow>
              LoadBucket env location w = (Err (NotHash body), w\<lparr>trace := trace w @ [Get u]\<rparr>)) \<and>
           (isHash body \<longrightarrow>
              LoadBucket env location w = LoadBucket env body (w\<lparr>trace := trace w @ [Get u]\<rparr>))"
    if t: "\<not> isHash location" "BaseUrl_Parse env (''tag/'' @ location) = Inr u"
      and g: "http_Get env (now w) u = Inr res" "StatusCode res < 400" "Body res = Inr body"
    for res body
  proof -
    have f: "FetchTag env location w = (Ok body, w\<lparr>trace := trace w @ [Get u]\<rparr>)"
      using t g by (simp add: FetchTag_def fetch_def getRequest_def emit_def)
    show ?thesis
      using t f by (simp add: LoadBucket_def)
  qed
  show ?thesis
    using LoadBucket_hash hash_gets tag_first tag_body by blast
qed

theorem LoadBucket_resolution_witness:
  "isHash test_hash \<and>
   gets (trace (snd (LoadBucket (example_env 0) test_hash world0))) = [url_of (dataRef test_hash)] \<and>
   BaseUrl_Parse (example_env 0) (''tag/'' @ ''release'') = Inr (url_of ''tag/release'') \<and>
   LoadBucket (example_env 0) ''release'' world0 =
     (Err (NotHash ''v1.2''), \<lparr>trace = [Get (url_of ''tag/release'')], fs = Map.empty\<rparr>) \<and>
   LoadBucket (example_env 0) ''stable'' world0 =
     LoadBucket (example_env 0) test_hash \<lparr>trace = [Get (url_of ''tag/stable'')], fs = Map.empty\<rparr>"
proof -
  have h: "isHash test_hash"
    by (simp add: isHash_def test_hash_def)
  have n: "\<not> isHash ''release''" "\<not> isHash ''stable''" "\<not> isHash ''v1.2''"
    by (simp_all add: isHash_def)
  have u: "BaseUrl_Parse (example_env 0) (''tag/'' @ ''release'') = Inr (url_of ''tag/release'')"
    "BaseUrl_Parse (example_env 0) (''tag/'' @ ''stable'') = Inr (url_of ''tag/stable'')"
    by (simp_all add: example_defs)
  have g: "http_Get (example_env 0) (now world0) (url_of ''tag/release'')
             = Inr \<lparr>StatusCode = 200, Body = Inr ''v1.2''\<rparr>"
    "http_Get (example_env 0) (now world0) (url_of ''tag/stable'')
             = Inr \<lparr>StatusCode = 200, Body = Inr test_hash\<rparr>"
    by (simp_all add: example_defs)
  have e: "gets (trace (snd (LoadBucket (example_env 0) test_hash world0)))
             = [url_of (dataRef test_hash)]"
    by (simp add: LoadBucket_def isHash_def Fetch_defs example_defs)
  have r1: "LoadBucket (example_env 0) ''release'' world0 =
     (Err (NotHash ''v1.2''), world0\<lparr>trace := trace world0 @ [Get (url_of ''tag/release'')]\<rparr>)"
    using LoadBucket_resolution [where location = "''release''" and env = "example_env 0"
        and w = world0 and u = "url_of ''tag/release''"] n u g
    by simp
  have r2: "LoadBucket (example_env 0) ''stable'' world0 =
     LoadBucket (example_env 0) test_hash (world0\<lparr>trace := trace world0 @ [Get (url_of ''tag/stable'')]\<rparr>)"
    using LoadBucket_resolution [where location = "''stable''" and env = "example_env 0"
        and w = world0 and u = "url_of ''tag/stable''"] n h u g
    by simp
  show ?thesis
    using h e u(1) r1 r2 by (simp add: world0_def)
qed

section \<open>ExistsAll\<close>

lemma ExistsAll_workers_step:
  assumes "dataUrl env (Hash c) = Ok u"
  shows "ExistsAll_workers env (c # cs) result w =
           ExistsAll_workers env cs
             (result(Path c \<mapsto> head_exists (http_Head env (now w) u)))
             (w\<lparr>trace := trace w @ [Head u]\<rparr>)"
  using assms
  by (simp add: headRequest_def head_exists_def emit_def split: sum.splits)

lemma ExistsAll_workers_ok:
  assumes "\<forall>c\<in>set cs. \<exists>u. dataUrl env (Hash c) = Ok u"
  shows "\<exists>m w'. ExistsAll_workers env cs m0 w = (Ok m, w') \<and>
           dom m = dom m0 \<union> Path ` set cs \<and>
           (\<forall>p. p \<notin> Path ` set cs \<longrightarrow> m p = m0 p) \<and>
           (distinct (map Path cs) \<longrightarrow>
              (\<forall>i<length cs. \<forall>u. dataUrl env (Hash (cs ! i)) = Ok u \<longrightarrow>
                 m (Path (cs ! i)) = Some (head_exists (http_Head env (now w + i) u))))"
  using assms
proof (induction cs arbitrary: m0 w)
  case Nil
  then show ?case by simp
next
  case (Cons c cs)
  then obtain u where u: "dataUrl env (Hash c) = Ok u"
    by auto
  define m1 where "m1 = m0(Path c \<mapsto> head_exists (http_Head env (now w) u))"
  define w1 where "w1 = w\<lparr>trace := trace w @ [Head u]\<rparr>"
  have step: "ExistsAll_workers env (c # cs) m0 w = ExistsAll_workers env cs m1 w1"
    unfolding m1_def w1_def by (rule ExistsAll_workers_step [OF u])
  have now1: "now w1 = Suc (now w)"
    by (simp add: w1_def now_def)
  from Cons.prems have "\<forall>c\<in>set cs. \<exists>u. dataUrl env (Hash c) = Ok u"
    by simp
  from Cons.IH [OF this, of m1 w1]
  obtain m w' where run: "ExistsAll_workers env cs m1 w1 = (Ok m, w')"
    and d: "dom m = dom m1 \<union> Path ` set cs"
    and keep: "\<forall>p. p \<notin> Path ` set cs \<longrightarrow> m p = m1 p"
    and vals: "distinct (map Path cs) \<longrightarrow>
              (\<forall>i<length cs. \<forall>u. dataUrl env (Hash (cs ! i)) = Ok u \<longrightarrow>
                 m (Path (cs ! i)) = Some (head_exists (http_Head env (now w1 + i) u)))"
    by blast
  have d': "dom m = dom m0 \<union> Path ` set (c # cs)"
    using d by (auto simp: m1_def)
  have keep': "\<forall>p. p \<notin> Path ` set (c # cs) \<longrightarrow> m p = m0 p"
    using keep by (auto simp: m1_def)
  have vals': "\<forall>i<length (c # cs). \<forall>v. dataUrl env (Hash ((c # cs) ! i)) = Ok v \<longrightarrow>
                 m (Path ((c # cs) ! i)) = Some (head_exists (http_Head env (now w + i) v))"
    if dist: "distinct (map Path (c # cs))"
  proof (intro allI impI)
    fix i v
    assume i: "i < length (c # cs)" and v: "dataUrl env (Hash ((c # cs) ! i)) = Ok v"
    show "m (Path ((c # cs) ! i)) = Some (head_exists (http_Head env (now w + i) v))"
    proof (cases i)
      case 0
      with v u have "v = u" by simp
      moreover from dist have "Path c \<notin> Path ` set cs" by simp
      ultimately show ?thesis
        using keep 0 by (simp add: m1_def)
    next
      case (Suc j)
      with i v vals dist show ?thesis
        by (simp add: now1)
    qed
  qed
  show ?case
    unfolding step using run d' keep' vals' by blast
qed

lemma ExistsAll_workers_panic:
  assumes "c \<in> set cs" and "\<nexists>u. dataUrl env (Hash c) = Ok u"
  shows "\<exists>p w'. ExistsAll_workers env cs m w = (Panic p, w')"
  using assms
proof (induction cs arbitrary: m w)
  case Nil
  then show ?case by simp
next
  case (Cons d cs)
  show ?case
  proof (cases "dataUrl env (Hash d)")
    case (Ok u)
    with Cons.prems have "c \<in> set cs"
      by auto
    from Cons.IH [OF this Cons.prems(2)] show ?thesis
      unfolding ExistsAll_workers_step [OF Ok] by blast
  next
    case (Err err)
    then show ?thesis by simp
  next
    case (Panic p)
    then show ?thesis by simp
  qed
qed

text \<open>
  C8, as the code has it. When the data URL of every entry can be built (each hash has two
  characters or more and the URL parser accepts its reference), \<^verbatim>\<open>ExistsAll\<close> returns a
  mapping and no error; the mapping has an entry for exactly the paths of the bucket and,
  the paths being distinct, the entry of a path is false when the HEAD request of its entry
  fails in the transport or answers another status than 200, and true when it answers 200.
\<close>

theorem ExistsAll_mapping:
  assumes "\<forall>c\<in>set (map snd (Contents b)). \<exists>u. dataUrl env (Hash c) = Ok u"
  shows "\<exists>m w'. ExistsAll env b w = (Ok m, w') \<and>
           dom m = set (map (\<lambda>(key, c). Path c) (Contents b)) \<and>
           (distinct (map (\<lambda>(key, c). Path c) (Contents b)) \<longrightarrow>
              (\<forall>i<length (Contents b). \<forall>u.
                 dataUrl env (Hash (snd (Contents b ! i))) = Ok u \<longrightarrow>
                 m (Path (snd (Contents b ! i))) =
                   Some (head_exists (http_Head env (now w + i) u))))"
proof -
  have paths: "map (\<lambda>(key, c). Path c) (Contents b) = map Path (map snd (Contents b))"
    by (simp add: case_prod_unfold comp_def)
  from ExistsAll_workers_ok [OF assms, of Map.empty w]
  obtain m w' where run: "ExistsAll_workers env (map snd (Contents b)) Map.empty w = (Ok m, w')"
    and d: "dom m = dom (Map.empty :: string \<rightharpoonup> bool) \<union> Path ` set (map snd (Contents b))"
    and vals: "distinct (map Path (map snd (Contents b))) \<longrightarrow>
              (\<forall>i<length (map snd (Contents b)). \<forall>u.
                 dataUrl env (Hash (map snd (Contents b) ! i)) = Ok u \<longrightarrow>
                 m (Path (map snd (Contents b) ! i)) =
                   Some (head_exists (http_Head env (now w + i) u)))"
    by blast
  have "dom m = Path ` set (map snd (Contents b))"
    using d by simp
  also have "\<dots> = set (map (\<lambda>(key, c). Path c) (Contents b))"
    by force
  finally have "dom m = set (map (\<lambda>(key, c). Path c) (Contents b))" .
  moreover have "distinct (map (\<lambda>(key, c). Path c) (Contents b)) \<longrightarrow>
              (\<forall>i<length (Contents b). \<forall>u.
                 dataUrl env (Hash (snd (Contents b ! i))) = Ok u \<longrightarrow>
                 m (Path (snd (Contents b ! i))) =
                   Some (head_exists (http_Head env (now w + i) u)))"
    using vals unfolding paths by simp
  ultimately show ?thesis
    using run unfolding ExistsAll_def by blast
qed

theorem ExistsAll_mapping_witness:
  "dataUrl (example_env 0) (Hash content_a) = Ok (url_of (dataRef test_hash)) \<and>
   dataUrl (example_env 0) (Hash content_b) = Ok (url_of (dataRef other_hash)) \<and>
   fst (ExistsAll (example_env 0) (bucket_of [content_a, content_b]) world0)
     = Ok [''a.txt'' \<mapsto> True, ''b.bin'' \<mapsto> False] \<and>
   dom [''a.txt'' \<mapsto> True, ''b.bin'' \<mapsto> False] = {''a.txt'', ''b.bin''}"
proof -
  have a: "dataUrl (example_env 0) (Hash content_a) = Ok (url_of (dataRef test_hash))"
    and b: "dataUrl (example_env 0) (Hash content_b) = Ok (url_of (dataRef other_hash))"
    by (simp_all add: content_a_def content_b_def dataUrl_def result_of_def example_defs)
  have all: "\<forall>c\<in>set (map snd (Contents (bucket_of [content_a, content_b]))).
               \<exists>u. dataUrl (example_env 0) (Hash c) = Ok u"
    using a b by (simp add: bucket_of_def)
  have run: "fst (ExistsAll (example_env 0) (bucket_of [content_a, content_b]) world0)
     = Ok [''a.txt'' \<mapsto> True, ''b.bin'' \<mapsto> False]"
    by (simp add: ExistsAll_def bucket_of_def content_a_def content_b_def dataUrl_def
        result_of_def headRequest_def emit_def now_def example_defs)
  from ExistsAll_mapping [OF all, of world0]
  obtain m w' where r: "ExistsAll (example_env 0) (bucket_of [content_a, content_b]) world0 = (Ok m, w')"
    and d: "dom m = set (map (\<lambda>(key, c). Path c) (Contents (bucket_of [content_a, content_b])))"
    by blast
  from r run have m: "m = [''a.txt'' \<mapsto> True, ''b.bin'' \<mapsto> False]"
    by simp
  have "set (map (\<lambda>(key, c). Path c) (Contents (bucket_of [content_a, content_b])))
          = {''a.txt'', ''b.bin''}"
    by (simp add: bucket_of_def content_a_def content_b_def)
  with d have "dom [''a.txt'' \<mapsto> True, ''b.bin'' \<mapsto> False] = {''a.txt'', ''b.bin''}"
    unfolding m by (rule trans)
  with a b run show ?thesis
    by (intro conjI)
qed

text \<open>
  C8 as stated does not hold for every bucket: an entry whose data URL the parser refuses
  makes the worker call \<^verbatim>\<open>panic(err)\<close>, and an entry whose hash is shorter than two
  characters makes \<^verbatim>\<open>hash[0:2]\<close> panic; the process ends and no mapping is returned.
\<close>

theorem ExistsAll_terminates_counterexample:
  "fst (ExistsAll (example_env 0) (bucket_of [content_a, content_escape, content_b]) world0)
     = Panic (PanicErr (Lib ''invalid URL escape'')) \<and>
   fst (ExistsAll (example_env 0) (bucket_of [content_a, content_short]) world0)
     = Panic SliceBounds"
  by (simp add: ExistsAll_def bucket_of_def content_a_def content_b_def content_short_def
      content_escape_def dataUrl_def result_of_def headRequest_def emit_def now_def example_defs)

text \<open>
  C10. \<^verbatim>\<open>ExistsAll\<close> builds the data URL of an entry from its hash as it is. A worker
  that takes an entry whose hash has fewer than two characters panics in \<^verbatim>\<open>dataUrl\<close>
  (slice out of range); a worker that takes an entry for which \<^verbatim>\<open>dataUrl\<close> returns an
  error panics with that error; in both cases nothing is recorded for the path and
  nothing is requested. A bucket with such an entry makes \<^verbatim>\<open>ExistsAll\<close> end in a panic
  instead of returning a mapping.
\<close>

theorem ExistsAll_panics:
  "(length (Hash c) < 2 \<longrightarrow>
      dataUrl env (Hash c) = Panic SliceBounds \<and>
      ExistsAll_workers env (c # cs) result w = (Panic SliceBounds, w)) \<and>
   (2 \<le> length (Hash c) \<and> BaseUrl_Parse env (dataRef (Hash c)) = Inl err \<longrightarrow>
      dataUrl env (Hash c) = Err err \<and>
      ExistsAll_workers env (c # cs) result w = (Panic (PanicErr err), w)) \<and>
   ((key, c) \<in> set (Contents b) \<and>
    (length (Hash c) < 2 \<or> BaseUrl_Parse env (dataRef (Hash c)) = Inl err) \<longrightarrow>
      (\<exists>p w'. ExistsAll env b w = (Panic p, w')))"
proof -
  have short: "dataUrl env (Hash c) = Panic SliceBounds"
    if "length (Hash c) < 2"
    using that by (simp add: dataUrl_def)
  have refused: "dataUrl env (Hash c) = Err err"
    if "2 \<le> length (Hash c)" "BaseUrl_Parse env (dataRef (Hash c)) = Inl err"
    using that by (simp add: dataUrl_def result_of_def)
  have bucket: "\<exists>p w'. ExistsAll env b w = (Panic p, w')"
    if m: "(key, c) \<in> set (Contents b)"
      and bad: "length (Hash c) < 2 \<or> BaseUrl_Parse env (dataRef (Hash c)) = Inl err"
  proof -
    from m have "c \<in> set (map snd (Contents b))"
      by force
    moreover from bad have "\<nexists>u. dataUrl env (Hash c) = Ok u"
      by (auto simp: dataUrl_def result_of_def)
    ultimately show ?thesis
      unfolding ExistsAll_def by (rule ExistsAll_workers_panic)
  qed
  show ?thesis
    using short refused bucket by simp
qed


theorem ExistsAll_panics_witness:
  "length (Hash content_short) < 2 \<and>
   ExistsAll_workers (example_env 0) [content_short, content_a] Map.empty world0
     = (Panic SliceBounds, world0) \<and>
   2 \<le> length (Hash content_escape) \<and>
   BaseUrl_Parse (example_env 0) (dataRef (Hash content_escape)) = Inl (Lib ''invalid URL escape'') \<and>
   ExistsAll_workers (example_env 0) [content_escape, content_a] Map.empty world0
     = (Panic (PanicErr (Lib ''invalid URL escape'')), world0) \<and>
   ExistsAll (example_env 0) (bucket_of [content_a, content_short]) world0
     = (Panic SliceBounds, \<lparr>trace = [Head (url_of (dataRef test_hash))], fs = Map.empty\<rparr>)"
proof -
  have s: "length (Hash content_short) < 2"
    by (simp add: content_short_def)
  have l: "2 \<le> length (Hash content_escape)"
    by (simp add: content_escape_def)
  have e: "BaseUrl_Parse (example_env 0) (dataRef (Hash content_escape))
             = Inl (Lib ''invalid URL escape'')"
    by (simp add: content_escape_def example_defs)
  have b: "ExistsAll (example_env 0) (bucket_of [content_a, content_short]) world0
     = (Panic SliceBounds, \<lparr>trace = [Head (url_of (dataRef test_hash))], fs = Map.empty\<rparr>)"
    by (simp add: ExistsAll_def bucket_of_def content_a_def content_short_def dataUrl_def
        result_of_def headRequest_def emit_def now_def example_defs)
  show ?thesis
    using s l e b
      ExistsAll_panics [where c = content_short and env = "example_env 0"
        and cs = "[content_a]" and result = Map.empty and w = world0]
      ExistsAll_panics [where c = content_escape and env = "example_env 0"
        and err = "Lib ''invalid URL escape''"
        and cs = "[content_a]" and result = Map.empty and w = world0]
    by simp
qed

section \<open>The filter: tag and format version\<close>

lemmas filter_defs = runFilter_def runCommand_def cat_exec_def TrimRight_LF_def LF_def CR_def

text \<open>
  C9, as the code has it. The bucket that \<^verbatim>\<open>filterBucket\<close> returns has the tag of the
  bucket it was given. The pack file that \<^verbatim>\<open>filterPackFile\<close> returns for a command that
  is not empty has the version \<^verbatim>\<open>pack.PackFileVersion\<close>, whatever the version of the pack
  file it was given; the two are equal when the given pack file has that version, as one
  made by \<^verbatim>\<open>NewPackFile\<close> has.
\<close>

theorem filter_tag_and_version:
  "(filterBucket exec cmd b = Ok b' \<longrightarrow> Tag b' = Tag b) \<and>
   (cmd \<noteq> [] \<and> filterPackFile fmt exec cmd pak = Ok pak' \<longrightarrow>
      Version pak' = PackFileVersion fmt) \<and>
   (filterPackFile fmt exec cmd pak = Ok pak' \<and> Version pak = PackFileVersion fmt \<longrightarrow>
      Version pak' = Version pak)"
  by (auto simp: filterBucket_def filterPackFile_def split: if_splits result.splits)

theorem filter_tag_and_version_witness:
  "''cat'' \<noteq> [] \<and>
   filterBucket cat_exec ''cat'' (bucket_of [content_a, content_b])
     = Ok (bucket_of [content_a, content_b]) \<and>
   Tag (bucket_of [content_a, content_b]) = ''release'' \<and>
   filterPackFile test_format cat_exec ''cat'' (NewPackFile test_format test_entries)
     = Ok (NewPackFile test_format test_entries) \<and>
   Version (NewPackFile test_format test_entries) = PackFileVersion test_format"
proof -
  have b: "filterBucket cat_exec ''cat'' (bucket_of [content_a, content_b])
     = Ok (bucket_of [content_a, content_b])"
    by (simp add: filterBucket_def filter_defs bucket_of_def content_a_def content_b_def)
  have p: "filterPackFile test_format cat_exec ''cat'' (NewPackFile test_format test_entries)
     = Ok (NewPackFile test_format test_entries)"
    by (simp add: filterPackFile_def filter_defs NewPackFile_def test_format_def test_entries_def)
  have v: "Version (NewPackFile test_format test_entries) = PackFileVersion test_format"
    by (simp add: NewPackFile_def)
  have t: "Tag (bucket_of [content_a, content_b]) = ''release''"
    by (simp add: bucket_of_def)
  show ?thesis
    using b p v t
      filter_tag_and_version [where exec = cat_exec and cmd = "''cat''"
        and b = "bucket_of [content_a, content_b]" and b' = "bucket_of [content_a, content_b]"
        and fmt = test_format and pak = "NewPackFile test_format test_entries"
        and pak' = "NewPackFile test_format test_entries"]
    by simp
qed

text \<open>
  C9 as stated does not hold for every pack file: filtering a pack file of version 2 with
  a command that gives back every path, where \<^verbatim>\<open>PackFileVersion\<close> is 1, returns a pack file
  of version 1.
\<close>

theorem filter_version_counterexample:
  "''cat'' \<noteq> [] \<and>
   filterPackFile test_format cat_exec ''cat'' old_pack = Ok \<lparr>Version = 1, Entries = test_entries\<rparr> \<and>
   Version old_pack = 2"
  by (simp add: filterPackFile_def filter_defs old_pack_def test_format_def test_entries_def)

end
